theory Spec2Isabelle
  imports Complex_Main "HOL-Library.Stream" "HOL-Library.Multiset"
begin

section \<open>The deploy bot of run.js\<close>

text \<open>
  The script run.js deploys a fixed contract from a pool of wallets on a randomised
  schedule. Everything outside the script is made explicit here:
  \<^item> \<open>Math.random()\<close> reads the next element of a stream of draws. ECMAScript promises a
    Number that is at least 0 and less than 1; the draws are reals and the theorems that
    depend on the promise assume it of the draws they use (\<open>unit_draws\<close> for all of them). Integers are unbounded (\<open>int\<close>), so
    the rounding of IEEE doubles beyond \<open>2^53\<close> is outside the model.
  \<^item> \<open>new Date().toISOString()\<close> reads the next element of a stream of clock strings.
  \<^item> every call of the chain client (ethers) is answered from a script that holds, for
    one deployment attempt, either the returned value or the raised \<open>Error\<close> of each call.
  \<^item> every call of the chain client, every countdown and every file write is appended to
    a trace, which is how "is never invoked" and "no file is written" are stated.
  Console output is not modelled.
\<close>

subsection \<open>Values, errors and the world\<close>

datatype jsval =
    JNull
  | JBool bool
  | JNum int
  | JStr string
  | JArr "jsval list"
  | JObj "(string \<times> jsval) list"

text \<open>An object literal is the list of its keys with their values, in source order.
  A key that the literal does not write is absent: \<open>map_of obj k = None\<close>.\<close>

type_synonym jsobject = "(string \<times> jsval) list"

text \<open>Every exception of the script and of its libraries is an \<open>Error\<close> object, of which
  only \<open>.message\<close> is ever read.\<close>

datatype exn = Error (message: string)

datatype chain_call =
    GetBalance string
  | Deploy jsval string int
  | WaitForDeployment
  | GetAddress
  | Message
  | SetMessage string int
  | TxWait

text \<open>\<open>Slept n\<close>: one \<open>countdown\<close> that awaited \<open>n\<close> timers of one second.\<close>

datatype event =
    ChainCall chain_call
  | Slept nat
  | WriteFile string jsval

text \<open>The answers of the chain client during one call of \<open>deployContract\<close>.\<close>

record attempt_replies =
  getBalance_r :: "exn + nat"
  ContractFactory_r :: "exn + unit"
  deploy_r :: "exn + unit"
  waitForDeployment_r :: "exn + unit"
  getAddress_r :: "exn + string"
  message_r :: "exn + string"
  setMessage_r :: "exn + string"
  wait_r :: "exn + unit"
  message2_r :: "exn + string"

record world =
  rng :: "real stream"
  clock :: "string stream"
  replies :: "attempt_replies stream"
  trace :: "event list"

definition unit_draws :: "real stream \<Rightarrow> bool" where
  "unit_draws s \<longleftrightarrow> (\<forall>u \<in> sset s. 0 \<le> u \<and> u < 1)"

definition emit :: "event \<Rightarrow> world \<Rightarrow> world" where
  "emit e w = w\<lparr>trace := trace w @ [e]\<rparr>"

text \<open>The events appended to the trace between two worlds.\<close>

definition emitted :: "world \<Rightarrow> world \<Rightarrow> event list" where
  "emitted w w' = drop (length (trace w)) (trace w')"

definition Math_random :: "world \<Rightarrow> real \<times> world" where
  "Math_random w = (shd (rng w), w\<lparr>rng := stl (rng w)\<rparr>)"

definition Date_now_toISOString :: "world \<Rightarrow> string \<times> world" where
  "Date_now_toISOString w = (shd (clock w), w\<lparr>clock := stl (clock w)\<rparr>)"

subsection \<open>Configuration\<close>

definition EXPLORER_URL :: string where "EXPLORER_URL = ''https://explore.tempo.xyz''"
definition CHAIN_ID :: int where "CHAIN_ID = 42429"
definition GAS_LIMIT :: int where "GAS_LIMIT = 3000000"
definition MIN_DEPLOY_COUNT :: int where "MIN_DEPLOY_COUNT = 2"
definition MAX_DEPLOY_COUNT :: int where "MAX_DEPLOY_COUNT = 4"
definition INTERVAL_OPTIONS :: "int list" where "INTERVAL_OPTIONS = [6, 12, 24]"
definition MIN_DELAY_BETWEEN_WALLETS :: int where "MIN_DELAY_BETWEEN_WALLETS = 5"
definition MAX_DELAY_BETWEEN_WALLETS :: int where "MAX_DELAY_BETWEEN_WALLETS = 30"

subsection \<open>Random helpers\<close>

text \<open>\<open>Math.floor(Math.random() * (max - min + 1)) + min\<close>\<close>

definition getRandomInt :: "int \<Rightarrow> int \<Rightarrow> world \<Rightarrow> int \<times> world" where
  "getRandomInt mn mx w =
     (let (u, w1) = Math_random w
      in (\<lfloor>u * real_of_int (mx - mn + 1)\<rfloor> + mn, w1))"

text \<open>\<open>array[Math.floor(Math.random() * array.length)]\<close>\<close>

definition getRandomElement :: "'a list \<Rightarrow> world \<Rightarrow> 'a \<times> world" where
  "getRandomElement array w =
     (let (u, w1) = Math_random w
      in (array ! nat \<lfloor>u * real (length array)\<rfloor>, w1))"


text \<open>The list of messages of \<open>getRandomMessage\<close>.\<close>

definition messages :: "string list" where
  "messages = [''Hello Tempo'', ''GM Tempo'', ''GN Tempo'', ''Testing Tempo'',
     ''Done Tempo'', ''Success Tempo'', ''Deployed Tempo'', ''Started Tempo'']"

definition getRandomMessage :: "world \<Rightarrow> string \<times> world" where
  "getRandomMessage w = getRandomElement messages w"

subsection \<open>Countdown\<close>

text \<open>\<open>for (let i = seconds; i > 0; i--) { ...; await new Promise(r => setTimeout(r, 1000)) }\<close>:
  the loop counts the timers it awaits.\<close>

function countdown_loop :: "int \<Rightarrow> nat \<Rightarrow> nat" where
  "countdown_loop i slept = (if i > 0 then countdown_loop (i - 1) (Suc slept) else slept)"
  by pat_completeness auto
termination
  by (relation "measure (\<lambda>(i, slept). nat i)") auto

declare countdown_loop.simps [simp del]

definition countdown :: "int \<Rightarrow> world \<Rightarrow> world" where
  "countdown seconds w = emit (Slept (countdown_loop seconds 0)) w"

subsection \<open>The deployment executor\<close>

record wallet =
  privateKey :: string
  address :: string

text \<open>A step that may throw, followed by the rest of the \<open>try\<close> block: an exception skips
  the rest.\<close>

definition andThen ::
  "(exn + 'a) \<times> world \<Rightarrow> ('a \<Rightarrow> world \<Rightarrow> (exn + 'b) \<times> world) \<Rightarrow> (exn + 'b) \<times> world" where
  "andThen m f = (case m of (Inl e, w) \<Rightarrow> (Inl e, w) | (Inr x, w) \<Rightarrow> f x w)"

text \<open>A call of the chain client: it is recorded, and answered by the script.\<close>

definition call :: "chain_call \<Rightarrow> exn + 'a \<Rightarrow> world \<Rightarrow> (exn + 'a) \<times> world" where
  "call c reply w = (reply, emit (ChainCall c) w)"

text \<open>The body of the \<open>try\<close> block of \<open>deployContract\<close> (lines 128 to 193); \<open>r\<close> holds the
  answers of the chain client for this attempt. \<open>balance\<close> is a bigint, hence a \<open>nat\<close>.
  No double lies between the double \<open>0.3\<close> and the real \<open>3/10\<close>, so \<open>Math.random() > 0.3\<close>
  is the comparison with \<open>3/10\<close>.\<close>

definition deployContract_try ::
  "attempt_replies \<Rightarrow> wallet \<Rightarrow> jsval \<Rightarrow> string \<Rightarrow> int \<Rightarrow> int \<Rightarrow> world
     \<Rightarrow> (exn + jsobject) \<times> world" where
  "deployContract_try r wallet abi bytecode deployNumber walletIndex w =
     andThen (call (GetBalance (address wallet)) (getBalance_r r) w) (\<lambda>balance w.
     if balance = 0 then (Inl (Error ''Balance 0! Skip wallet ini''), w)
     else
       let (randomGas, w) = getRandomInt 2500000 GAS_LIMIT w in
       andThen (ContractFactory_r r, w) (\<lambda>factory w.
       andThen (call (Deploy abi bytecode randomGas) (deploy_r r) w) (\<lambda>contract w.
       andThen (call WaitForDeployment (waitForDeployment_r r) w) (\<lambda>_ w.
       andThen (call GetAddress (getAddress_r r) w) (\<lambda>contractAddress w.
       andThen (call Message (message_r r) w) (\<lambda>message w.
       let (u, w) = Math_random w;
           shouldUpdate = (u > 3 / 10)
       in
       andThen
         (if shouldUpdate then
            let (randomDelay, w) = getRandomInt 2 5 w;
                w = countdown randomDelay w;
                (newMsg, w) = getRandomMessage w;
                (gasLimit, w) = getRandomInt 80000 120000 w
            in
            andThen (call (SetMessage newMsg gasLimit) (setMessage_r r) w) (\<lambda>tx_hash w.
            andThen (call TxWait (wait_r r) w) (\<lambda>_ w.
            andThen (call Message (message2_r r) w) (\<lambda>updatedMessage w.
            (Inr (JStr tx_hash), w))))
          else (Inr JNull, w))
         (\<lambda>txHash w.
       let (timestamp, w) = Date_now_toISOString w in
       (Inr [(''success'', JBool True),
             (''deployer'', JStr (address wallet)),
             (''contractAddress'', JStr contractAddress),
             (''txHash'', txHash),
             (''explorer'', JStr (EXPLORER_URL @ ''/address/'' @ contractAddress)),
             (''timestamp'', JStr timestamp),
             (''walletIndex'', JNum walletIndex),
             (''deployNumber'', JNum deployNumber)], w))))))))"

text \<open>\<open>deployContract\<close>: the \<open>try\<close> block and its \<open>catch\<close> (lines 195 to 205). The result is
  \<open>Inl\<close> when the call rejects, \<open>Inr\<close> when it returns an outcome.\<close>

definition deployContract ::
  "wallet \<Rightarrow> jsval \<Rightarrow> string \<Rightarrow> int \<Rightarrow> int \<Rightarrow> world \<Rightarrow> (exn + jsobject) \<times> world" where
  "deployContract wallet abi bytecode deployNumber walletIndex w =
     (let r = shd (replies w);
          w = w\<lparr>replies := stl (replies w)\<rparr>
      in case deployContract_try r wallet abi bytecode deployNumber walletIndex w of
           (Inr outcome, w) \<Rightarrow> (Inr outcome, w)
         | (Inl error, w) \<Rightarrow>
             let (timestamp, w) = Date_now_toISOString w in
             (Inr [(''success'', JBool False),
                   (''deployer'', JStr (address wallet)),
                   (''error'', JStr (message error)),
                   (''timestamp'', JStr timestamp),
                   (''walletIndex'', JNum walletIndex),
                   (''deployNumber'', JNum deployNumber)], w))"

subsection \<open>The shuffle\<close>

text \<open>Arrays are mutable objects: a store is the list of the arrays allocated so far and a
  reference is a position in it (below its length: a reference never dangles). \<open>[...array]\<close> allocates a copy. The loop runs \<open>i\<close> from
  \<open>length - 1\<close> down to 1 (not at all on an empty array, where \<open>length - 1\<close> is \<open>-1\<close> in the
  source and \<open>0\<close> here). For a draw in \<open>[0, 1)\<close> the index \<open>j\<close> is between 0 and \<open>i\<close>.\<close>

type_synonym 'a store = "'a list list"

fun shuffle_loop :: "nat \<Rightarrow> nat \<Rightarrow> 'a store \<Rightarrow> world \<Rightarrow> 'a store \<times> world" where
  "shuffle_loop 0 shuffled h w = (h, w)"
| "shuffle_loop (Suc k) shuffled h w =
     (let i = Suc k;
          (u, w) = Math_random w;
          j = nat \<lfloor>u * real (i + 1)\<rfloor>;
          a = h ! shuffled;
          h = h[shuffled := a[i := a ! j, j := a ! i]]
      in shuffle_loop k shuffled h w)"

definition shuffleArray :: "nat \<Rightarrow> 'a store \<Rightarrow> world \<Rightarrow> (nat \<times> 'a store) \<times> world" where
  "shuffleArray array h w =
     (let shuffled = length h;
          h = h @ [h ! array];
          (h, w) = shuffle_loop (length (h ! shuffled) - 1) shuffled h w
      in ((shuffled, h), w))"

subsection \<open>One wallet\<close>

text \<open>Lines 234 to 236: the wait before the next deployment of the same wallet.\<close>

definition totalWait :: "int \<Rightarrow> world \<Rightarrow> int \<times> world" where
  "totalWait intervalHours w =
     (let nextDeploySeconds = intervalHours * 3600;
          (randomVariation, w) = getRandomInt (- 600) 600 w
      in (nextDeploySeconds + randomVariation, w))"

function processWallet_loop ::
  "wallet \<Rightarrow> jsval \<Rightarrow> string \<Rightarrow> int \<Rightarrow> int \<Rightarrow> int \<Rightarrow> int \<Rightarrow> jsobject list \<Rightarrow> world
     \<Rightarrow> (exn + jsobject list) \<times> world" where
  "processWallet_loop wallet abi bytecode walletIndex intervalHours deployCount i results w =
     (if i < deployCount then
        (case deployContract wallet abi bytecode (walletIndex * 100 + i + 1) (walletIndex + 1) w of
           (Inl e, w) \<Rightarrow> (Inl e, w)
         | (Inr result, w) \<Rightarrow>
             processWallet_loop wallet abi bytecode walletIndex intervalHours deployCount (i + 1)
               (results @ [result])
               (if i < deployCount - 1 then
                  (let (wait, w) = totalWait intervalHours w in countdown wait w)
                else w))
      else (Inr results, w))"
  by pat_completeness auto
termination
  by (relation "measure (\<lambda>(wallet, abi, bytecode, walletIndex, intervalHours, deployCount, i, results, w).
        nat (deployCount - i))") auto

declare processWallet_loop.simps [simp del]

definition processWallet ::
  "wallet \<Rightarrow> jsval \<Rightarrow> string \<Rightarrow> int \<Rightarrow> int \<Rightarrow> world \<Rightarrow> (exn + jsobject list) \<times> world" where
  "processWallet wallet abi bytecode walletIndex totalWallets w =
     (let (deployCount, w) = getRandomInt MIN_DEPLOY_COUNT MAX_DEPLOY_COUNT w;
          (intervalHours, w) = getRandomElement INTERVAL_OPTIONS w
      in processWallet_loop wallet abi bytecode walletIndex intervalHours deployCount 0 [] w)"

subsection \<open>Compilation and credentials\<close>

text \<open>\<open>JSON.parse(solc.compile(...))\<close> for the fixed contract source is an input: the
  compiler is an external service. \<open>MyContract output = None\<close> stands for an output
  without \<open>contracts['MyContract.sol']['MyContract']\<close>, where line 70 or 74 raises a
  TypeError.\<close>

record solc_error =
  severity :: string
  formattedMessage :: string

record contract_output =
  contract_abi :: jsval
  evm_bytecode_object :: string

record solc_output =
  errors :: "solc_error list option"
  MyContract :: "contract_output option"

definition compileContract :: "solc_output \<Rightarrow> exn + (jsval \<times> string)" where
  "compileContract output =
     (if (case errors output of
            None \<Rightarrow> False
          | Some es \<Rightarrow> length (filter (\<lambda>e. severity e = ''error'') es) > 0)
      then Inl (Error ''Contract compilation failed'')
      else case MyContract output of
             None \<Rightarrow> Inl (Error ''Cannot read properties of undefined'')
           | Some contract \<Rightarrow> Inr (contract_abi contract, ''0x'' @ evm_bytecode_object contract))"

text \<open>\<open>content.split('\n')\<close>: the pieces between line feeds; the empty string has one
  (empty) piece.\<close>

fun split_lines :: "string \<Rightarrow> string list" where
  "split_lines [] = [[]]"
| "split_lines (c # cs) =
     (if c = CHR 0x0A then [] # split_lines cs
      else case split_lines cs of
             [] \<Rightarrow> [[c]]
           | l # ls \<Rightarrow> (c # l) # ls)"

text \<open>White space and line terminators of ECMAScript among the characters below U+0100:
  tab, line feed, vertical tab, form feed, carriage return, space, no-break space.\<close>

definition js_white :: "char \<Rightarrow> bool" where
  "js_white c \<longleftrightarrow> c \<in> set [CHR 0x09, CHR 0x0A, CHR 0x0B, CHR 0x0C, CHR 0x0D, CHR 0x20, CHR 0xA0]"

definition trim :: "string \<Rightarrow> string" where
  "trim s = rev (dropWhile js_white (rev (dropWhile js_white s)))"

text \<open>\<open>line && !line.startsWith('#')\<close>: the empty string is falsy.\<close>

definition keep_line :: "string \<Rightarrow> bool" where
  "keep_line line \<longleftrightarrow> line \<noteq> [] \<and> \<not> (take 1 line = ''#'')"

text \<open>\<open>readFileSync\<close> either raises or returns the content of pk.txt.\<close>

definition getPrivateKeys :: "exn + string \<Rightarrow> exn + string list" where
  "getPrivateKeys readFileSync_r =
     (case readFileSync_r of
        Inl e \<Rightarrow> Inl e
      | Inr content \<Rightarrow> Inr (filter keep_line (map trim (split_lines content))))"

subsection \<open>The run\<close>

text \<open>What the run receives from outside once: the compiler output, the credential file,
  the wallet constructor of ethers (it raises on a malformed key) and whether the
  report can be written.\<close>

record host =
  solc_compile :: solc_output
  pk_txt :: "exn + string"
  Wallet :: "string \<Rightarrow> exn + wallet"
  writeFileSync_r :: "exn + unit"

text \<open>\<open>privateKeys.map(pk => new ethers.Wallet(pk, provider))\<close>: the first key that the
  constructor rejects ends the map.\<close>

fun map_Wallet :: "(string \<Rightarrow> exn + wallet) \<Rightarrow> string list \<Rightarrow> exn + wallet list" where
  "map_Wallet new [] = Inr []"
| "map_Wallet new (pk # pks) =
     (case new pk of
        Inl e \<Rightarrow> Inl e
      | Inr wl \<Rightarrow> (case map_Wallet new pks of Inl e \<Rightarrow> Inl e | Inr wls \<Rightarrow> Inr (wl # wls)))"

text \<open>The loop of lines 276 to 289.\<close>

function wallets_loop ::
  "wallet list \<Rightarrow> jsval \<Rightarrow> string \<Rightarrow> nat \<Rightarrow> jsobject list \<Rightarrow> world
     \<Rightarrow> (exn + jsobject list) \<times> world" where
  "wallets_loop shuffledWallets abi bytecode i allResults w =
     (if i < length shuffledWallets then
        (case processWallet (shuffledWallets ! i) abi bytecode (int i)
                (int (length shuffledWallets)) w of
           (Inl e, w) \<Rightarrow> (Inl e, w)
         | (Inr walletResults, w) \<Rightarrow>
             wallets_loop shuffledWallets abi bytecode (i + 1) (allResults @ walletResults)
               (if int i < int (length shuffledWallets) - 1 then
                  (let (delaySeconds, w) =
                         getRandomInt MIN_DELAY_BETWEEN_WALLETS MAX_DELAY_BETWEEN_WALLETS w
                   in countdown delaySeconds w)
                else w))
      else (Inr allResults, w))"
  by pat_completeness auto
termination
  by (relation "measure (\<lambda>(shuffledWallets, abi, bytecode, i, allResults, w).
        length shuffledWallets - i)") auto

declare wallets_loop.simps [simp del]

text \<open>Truthiness of a property read; \<open>None\<close> is \<open>undefined\<close>.\<close>

fun truthy :: "jsval option \<Rightarrow> bool" where
  "truthy None = False"
| "truthy (Some JNull) = False"
| "truthy (Some (JBool b)) = b"
| "truthy (Some (JNum n)) = (n \<noteq> 0)"
| "truthy (Some (JStr s)) = (s \<noteq> [])"
| "truthy (Some (JArr xs)) = True"
| "truthy (Some (JObj kvs)) = True"

text \<open>Decimal digits for template strings such as \<open>`${h}h`\<close>.\<close>

function digits :: "nat \<Rightarrow> string" where
  "digits n =
     (if n < 10 then [''0123456789'' ! n]
      else digits (n div 10) @ [''0123456789'' ! (n mod 10)])"
  by pat_completeness auto
termination
  by (relation "measure id") auto

declare digits.simps [simp del]

definition toString :: "int \<Rightarrow> string" where
  "toString n = (if n < 0 then ''-'' @ digits (nat (- n)) else digits (nat n))"

text \<open>\<open>new Date(allResults[0]?.timestamp).toISOString()\<close>: a RangeError when there is no
  first outcome (the date is invalid); otherwise the outcome's time stamp, which
  \<open>toISOString\<close> wrote and therefore reads back unchanged.\<close>

definition startTime_of :: "jsobject list \<Rightarrow> exn + string" where
  "startTime_of allResults =
     (case allResults of
        [] \<Rightarrow> Inl (Error ''Invalid time value'')
      | r # _ \<Rightarrow>
          (case map_of r ''timestamp'' of
             Some (JStr t) \<Rightarrow> Inr t
           | _ \<Rightarrow> Inl (Error ''Invalid time value'')))"

text \<open>\<open>fs.writeFileSync(path, JSON.stringify(data, null, 2))\<close>: the file holds the value
  that is serialised.\<close>

definition writeFileSync :: "string \<Rightarrow> jsval \<Rightarrow> exn + unit \<Rightarrow> world \<Rightarrow> (exn + unit) \<times> world" where
  "writeFileSync path data reply w =
     (case reply of
        Inl e \<Rightarrow> (Inl e, w)
      | Inr _ \<Rightarrow> (Inr (), emit (WriteFile path data) w))"

text \<open>The summary object of lines 324 to 342.\<close>

definition summary_of :: "jsobject list \<Rightarrow> string \<Rightarrow> string \<Rightarrow> jsval" where
  "summary_of allResults startTime endTime =
     (let successful = filter (\<lambda>r. truthy (map_of r ''success'')) allResults;
          failed = filter (\<lambda>r. \<not> truthy (map_of r ''success'')) allResults;
          uniqueWallets = remdups (map (\<lambda>r. map_of r ''deployer'') allResults)
      in JObj
        [(''network'', JStr ''Tempo Testnet''),
         (''chainId'', JNum CHAIN_ID),
         (''botVersion'', JStr ''3.0.0''),
         (''features'', JObj
            [(''randomDeployCount'',
                JStr (toString MIN_DEPLOY_COUNT @ ''-'' @ toString MAX_DEPLOY_COUNT)),
             (''randomIntervals'', JArr (map (\<lambda>h. JStr (toString h @ ''h'')) INTERVAL_OPTIONS)),
             (''antiDetection'', JBool True),
             (''shuffledWallets'', JBool True),
             (''randomDelays'', JBool True)]),
         (''totalDeployments'', JNum (int (length allResults))),
         (''successful'', JNum (int (length successful))),
         (''failed'', JNum (int (length failed))),
         (''uniqueWallets'', JNum (int (length uniqueWallets))),
         (''deployments'', JArr (map JObj allResults)),
         (''startTime'', JStr startTime),
         (''endTime'', JStr endTime)])"

text \<open>The \<open>try\<close> block of \<open>main\<close> (lines 256 to 348).\<close>

definition main_try :: "host \<Rightarrow> world \<Rightarrow> (exn + unit) \<times> world" where
  "main_try host w =
     andThen (compileContract (solc_compile host), w) (\<lambda>(abi, bytecode) w.
     andThen (getPrivateKeys (pk_txt host), w) (\<lambda>privateKeys w.
     if length privateKeys = 0 then (Inl (Error ''No private keys found in pk.txt''), w)
     else
       andThen (map_Wallet (Wallet host) privateKeys, w) (\<lambda>wallets w.
       let ((shuffled, h), w) = shuffleArray 0 [wallets] w;
           shuffledWallets = h ! shuffled
       in
       andThen (wallets_loop shuffledWallets abi bytecode 0 [] w) (\<lambda>allResults w.
       andThen (startTime_of allResults, w) (\<lambda>startTime w.
       let (endTime, w) = Date_now_toISOString w;
           summary = summary_of allResults startTime endTime
       in
       andThen (writeFileSync ''deployments.json'' summary (writeFileSync_r host) w) (\<lambda>_ w.
       (Inr (), w)))))))"

text \<open>\<open>main\<close> with its \<open>catch\<close> (lines 350 to 353): the exit code of the process and the
  final world. \<open>process.exit(1)\<close> on an exception; a run that completes exits with 0.\<close>

definition main :: "host \<Rightarrow> world \<Rightarrow> int \<times> world" where
  "main host w =
     (case main_try host w of
        (Inr _, w) \<Rightarrow> (0, w)
      | (Inl error, w) \<Rightarrow> (1, w))"

subsection \<open>Observing a run\<close>

text \<open>An event other than a file write.\<close>

definition quiet :: "event \<Rightarrow> bool" where
  "quiet e \<longleftrightarrow> (case e of WriteFile path data \<Rightarrow> False | _ \<Rightarrow> True)"

text \<open>\<open>steps w w'\<close>: the world \<open>w'\<close> is reached from \<open>w\<close> by drawing random numbers, reading
  the clock, consuming replies and appending events that are not file writes.\<close>

definition steps :: "world \<Rightarrow> world \<Rightarrow> bool" where
  "steps w w' \<longleftrightarrow>
     sset (rng w') \<subseteq> sset (rng w) \<and> (\<exists>evs. trace w' = trace w @ evs \<and> list_all quiet evs)"

text \<open>The \<open>deployNumber\<close> of each outcome of a list.\<close>

definition deployNumbers :: "jsobject list \<Rightarrow> jsval option list" where
  "deployNumbers rs = map (\<lambda>r. map_of r ''deployNumber'') rs"

text \<open>An outcome with a boolean \<open>success\<close> flag.\<close>

definition flagged :: "jsobject \<Rightarrow> bool" where
  "flagged r \<longleftrightarrow> (case map_of r ''success'' of Some (JBool b) \<Rightarrow> True | _ \<Rightarrow> False)"

text \<open>The numbers of the outcomes of the wallets from position \<open>i\<close> on: strictly increasing,
  each \<open>k * 100 + a + 1\<close> for a wallet position \<open>k\<close> and an attempt index \<open>a\<close> below 4.\<close>

definition numbered :: "nat \<Rightarrow> nat \<Rightarrow> jsobject list \<Rightarrow> bool" where
  "numbered i n rs \<longleftrightarrow>
     (\<exists>ds. deployNumbers rs = map (\<lambda>d. Some (JNum d)) ds \<and> sorted_wrt (<) ds \<and>
        (\<forall>d \<in> set ds. \<exists>k a. i \<le> k \<and> k < n \<and> 0 \<le> a \<and> a < 4 \<and> d = int k * 100 + a + 1))"

subsection \<open>Example inputs\<close>

definition funded :: attempt_replies where
  "funded = \<lparr>getBalance_r = Inr 1000000000000000000, ContractFactory_r = Inr (),
     deploy_r = Inr (), waitForDeployment_r = Inr (), getAddress_r = Inr ''0xC0FFEE'',
     message_r = Inr ''Hello Tempo!'', setMessage_r = Inr ''0xABCD'', wait_r = Inr (),
     message2_r = Inr ''GM Tempo''\<rparr>"

text \<open>A world whose every draw is \<open>u\<close> and whose chain answers every attempt with \<open>r\<close>.\<close>

definition example_world :: "real \<Rightarrow> attempt_replies \<Rightarrow> world" where
  "example_world u r = \<lparr>rng = sconst u, clock = sconst ''2026-01-01T00:00:00.000Z'',
     replies = sconst r, trace = []\<rparr>"

definition alice :: wallet where
  "alice = \<lparr>privateKey = ''0x01'', address = ''0xA11CE''\<rparr>"

definition failing_solc :: solc_output where
  "failing_solc = \<lparr>errors = Some [\<lparr>severity = ''warning'', formattedMessage = ''Warning: SPDX''\<rparr>,
       \<lparr>severity = ''error'', formattedMessage = ''ParserError: Expected ;''\<rparr>],
     MyContract = None\<rparr>"

definition good_solc :: solc_output where
  "good_solc = \<lparr>errors = Some [\<lparr>severity = ''warning'', formattedMessage = ''Warning: SPDX''\<rparr>],
     MyContract = Some \<lparr>contract_abi = JArr [], evm_bytecode_object = ''6080''\<rparr>\<rparr>"

text \<open>A host whose compiler answers \<open>out\<close> and whose pk.txt holds \<open>content\<close>; every key is
  accepted and is the key of the same address.\<close>

definition example_host :: "solc_output \<Rightarrow> string \<Rightarrow> host" where
  "example_host out content = \<lparr>solc_compile = out, pk_txt = Inr content,
     Wallet = (\<lambda>pk. Inr \<lparr>privateKey = pk, address = ''0xA11CE''\<rparr>), writeFileSync_r = Inr ()\<rparr>"

text \<open>A world whose draws are all 0, where the first attempt finds a funded wallet and every
  later one a balance of zero.\<close>

definition mixed_world :: world where
  "mixed_world = \<lparr>rng = sconst 0, clock = sconst ''2026-01-01T00:00:00.000Z'',
     replies = funded ## sconst (funded\<lparr>getBalance_r := Inr 0\<rparr>), trace = []\<rparr>"

text \<open>The outcomes of a run of one wallet in \<open>mixed_world\<close>.\<close>

definition example_outcomes :: "jsobject list" where
  "example_outcomes =
     [[(''success'', JBool True), (''deployer'', JStr ''0xA11CE''),
       (''contractAddress'', JStr ''0xC0FFEE''), (''txHash'', JNull),
       (''explorer'', JStr ''https://explore.tempo.xyz/address/0xC0FFEE''),
       (''timestamp'', JStr ''2026-01-01T00:00:00.000Z''),
       (''walletIndex'', JNum 1), (''deployNumber'', JNum 1)],
      [(''success'', JBool False), (''deployer'', JStr ''0xA11CE''),
       (''error'', JStr ''Balance 0! Skip wallet ini''),
       (''timestamp'', JStr ''2026-01-01T00:00:00.000Z''),
       (''walletIndex'', JNum 1), (''deployNumber'', JNum 2)]]"

section \<open>Properties\<close>

subsection \<open>Random helpers stay in range\<close>

lemma floor_scaled_draw:
  fixes u :: real and n :: int
  assumes "0 \<le> u" "u < 1" "0 < n"
  shows "0 \<le> \<lfloor>u * real_of_int n\<rfloor>" and "\<lfloor>u * real_of_int n\<rfloor> < n"
proof -
  from assms have "0 \<le> u * real_of_int n" by simp
  then show "0 \<le> \<lfloor>u * real_of_int n\<rfloor>" by simp
  from assms have "u * real_of_int n < 1 * real_of_int n"
    by (intro mult_strict_right_mono) simp_all
  then show "\<lfloor>u * real_of_int n\<rfloor> < n" by (simp add: floor_less_iff)
qed

lemma getRandomInt_bounds:
  assumes "0 \<le> shd (rng w)" "shd (rng w) < 1" "mn \<le> mx"
  shows "mn \<le> fst (getRandomInt mn mx w)" and "fst (getRandomInt mn mx w) \<le> mx"
  using floor_scaled_draw [of "shd (rng w)" "mx - mn + 1"] assms
  by (simp_all add: getRandomInt_def Math_random_def)

lemma getRandomElement_member:
  assumes "0 \<le> shd (rng w)" "shd (rng w) < 1" "xs \<noteq> []"
  shows "fst (getRandomElement xs w) \<in> set xs"
proof -
  from assms have "0 < int (length xs)" by simp
  from floor_scaled_draw [OF assms(1,2) this]
  have "nat \<lfloor>shd (rng w) * real (length xs)\<rfloor> < length xs"
    by (simp add: nat_less_iff)
  then show ?thesis
    by (simp add: getRandomElement_def Math_random_def)
qed






subsection \<open>The deployment executor\<close>

lemma countdown_loop_eq: "countdown_loop i n = n + nat i"
  by (induction i n rule: countdown_loop.induct) (subst countdown_loop.simps, auto)

lemma unit_draws_shd: "unit_draws s \<Longrightarrow> 0 \<le> shd s \<and> shd s < 1"
  by (simp add: unit_draws_def shd_sset)


lemma steps_refl: "steps w w"
  unfolding steps_def by auto

lemma steps_trans: "steps w w1 \<Longrightarrow> steps w1 w2 \<Longrightarrow> steps w w2"
  unfolding steps_def by (auto simp: list_all_iff)

lemma steps_unit_draws: "steps w w' \<Longrightarrow> unit_draws (rng w) \<Longrightarrow> unit_draws (rng w')"
  unfolding steps_def unit_draws_def by blast

lemma steps_emit: "quiet e \<Longrightarrow> steps w w1 \<Longrightarrow> steps w (emit e w1)"
  unfolding steps_def emit_def by auto

lemma steps_Math_random: "steps w w1 \<Longrightarrow> steps w (snd (Math_random w1))"
  unfolding steps_def Math_random_def by (auto dest: stl_sset)

lemma steps_getRandomInt: "steps w w1 \<Longrightarrow> steps w (snd (getRandomInt mn mx w1))"
  using steps_Math_random [of w w1] by (simp add: getRandomInt_def case_prod_beta)

lemma steps_getRandomElement: "steps w w1 \<Longrightarrow> steps w (snd (getRandomElement xs w1))"
  using steps_Math_random [of w w1] by (simp add: getRandomElement_def case_prod_beta)

lemma steps_getRandomMessage: "steps w w1 \<Longrightarrow> steps w (snd (getRandomMessage w1))"
  by (simp add: getRandomMessage_def steps_getRandomElement)

lemma steps_countdown: "steps w w1 \<Longrightarrow> steps w (countdown s w1)"
  by (simp add: countdown_def steps_emit quiet_def)

lemma steps_Date: "steps w w1 \<Longrightarrow> steps w (snd (Date_now_toISOString w1))"
  unfolding steps_def Date_now_toISOString_def by auto

lemma steps_call: "steps w w1 \<Longrightarrow> steps w (snd (call c r w1))"
  by (simp add: call_def steps_emit quiet_def)

lemma steps_replies: "steps w w1 \<Longrightarrow> steps w (w1\<lparr>replies := x\<rparr>)"
  unfolding steps_def by auto

lemma steps_Pair: "steps w w1 \<Longrightarrow> steps w (snd (x, w1))"
  by simp

lemma steps_if:
  "steps w (snd a) \<Longrightarrow> steps w (snd b) \<Longrightarrow> steps w (snd (if c then a else b))"
  by simp

lemma steps_case_prod:
  "steps w (snd t) \<Longrightarrow> (\<And>a w1. steps w1 (snd (f a w1))) \<Longrightarrow> steps w (snd (case_prod f t))"
  by (cases t) (auto intro: steps_trans)

lemma steps_case_sum:
  "(\<And>e. steps w (snd (f e))) \<Longrightarrow> (\<And>x. steps w (snd (g x))) \<Longrightarrow> steps w (snd (case_sum f g s))"
  by (cases s) auto

lemma steps_andThen:
  "steps w (snd m) \<Longrightarrow> (\<And>x w1. steps w1 (snd (f x w1))) \<Longrightarrow> steps w (snd (andThen m f))"
  by (cases m; cases "fst m") (auto simp: andThen_def intro: steps_trans)

lemmas steps_intros = steps_refl steps_emit steps_Math_random steps_getRandomInt
  steps_getRandomElement steps_getRandomMessage steps_countdown steps_Date steps_call
  steps_replies steps_Pair steps_if steps_case_prod steps_case_sum steps_andThen

lemma steps_deployContract_try:
  "steps w w1 \<Longrightarrow> steps w (snd (deployContract_try r wl abi bc dn wi w1))"
  unfolding deployContract_try_def Let_def
  by (intro steps_intros)



lemmas deploy_prims = call_def getRandomInt_def getRandomMessage_def
  getRandomElement_def countdown_def Date_now_toISOString_def Math_random_def emit_def

lemmas run_simps = deployContract_def deployContract_try_def andThen_def deploy_prims
  countdown_loop_eq messages_def example_world_def funded_def alice_def GAS_LIMIT_def
  EXPLORER_URL_def

lemma andThen_InrE:
  assumes "andThen m f = (Inr y, w')"
  obtains x w1 where "m = (Inr x, w1)" and "f x w1 = (Inr y, w')"
  using assms by (cases m; cases "fst m") (auto simp: andThen_def)



lemma deployContract_try_Inr:
  assumes "deployContract_try r wl abi bc dn wi w = (Inr out, w')"
  shows "\<exists>a tx. out =
           [(''success'', JBool True),
            (''deployer'', JStr (address wl)),
            (''contractAddress'', JStr a),
            (''txHash'', tx),
            (''explorer'', JStr (EXPLORER_URL @ ''/address/'' @ a)),
            (''timestamp'', JStr (shd (clock w))),
            (''walletIndex'', JNum wi),
            (''deployNumber'', JNum dn)] \<and>
         getAddress_r r = Inr a \<and>
         (if 3 / 10 < shd (stl (rng w))
          then \<exists>h m g. tx = JStr h \<and> setMessage_r r = Inr h \<and>
                 ChainCall (SetMessage m g) \<in> set (emitted w w')
          else tx = JNull)"
  using assms unfolding deployContract_try_def
  by (auto simp: Let_def deploy_prims emitted_def elim!: andThen_InrE split: if_splits)



lemma deployContract_try_zero_balance:
  assumes "getBalance_r r = Inr 0"
  shows "deployContract_try r wl abi bc dn wi w =
           (Inl (Error ''Balance 0! Skip wallet ini''), emit (ChainCall (GetBalance (address wl))) w)"
  using assms by (simp add: deployContract_try_def andThen_def call_def)

lemma steps_deployContract:
  "steps w w1 \<Longrightarrow> steps w (snd (deployContract wl abi bc dn wi w1))"
  unfolding deployContract_def Let_def
  by (intro steps_intros steps_deployContract_try)

lemma deployContract_Inl:
  assumes "deployContract_try (shd (replies w)) wl abi bc dn wi (w\<lparr>replies := stl (replies w)\<rparr>)
             = (Inl e, w1)"
  shows "deployContract wl abi bc dn wi w =
           (Inr [(''success'', JBool False),
                 (''deployer'', JStr (address wl)),
                 (''error'', JStr (message e)),
                 (''timestamp'', JStr (shd (clock w1))),
                 (''walletIndex'', JNum wi),
                 (''deployNumber'', JNum dn)], w1\<lparr>clock := stl (clock w1)\<rparr>)"
  using assms by (simp add: deployContract_def Date_now_toISOString_def)

lemma deployContract_Inr:
  assumes "deployContract_try (shd (replies w)) wl abi bc dn wi (w\<lparr>replies := stl (replies w)\<rparr>)
             = (Inr out, w1)"
  shows "deployContract wl abi bc dn wi w = (Inr out, w1)"
    and "\<exists>a tx. out =
           [(''success'', JBool True),
            (''deployer'', JStr (address wl)),
            (''contractAddress'', JStr a),
            (''txHash'', tx),
            (''explorer'', JStr (EXPLORER_URL @ ''/address/'' @ a)),
            (''timestamp'', JStr (shd (clock w))),
            (''walletIndex'', JNum wi),
            (''deployNumber'', JNum dn)] \<and>
         getAddress_r (shd (replies w)) = Inr a \<and>
         (if 3 / 10 < shd (stl (rng w))
          then \<exists>h m g. tx = JStr h \<and> setMessage_r (shd (replies w)) = Inr h \<and>
                 ChainCall (SetMessage m g) \<in> set (emitted w w1)
          else tx = JNull)"
proof -
  show "deployContract wl abi bc dn wi w = (Inr out, w1)"
    using assms by (simp add: deployContract_def)
  have e: "emitted (w\<lparr>replies := stl (replies w)\<rparr>) w1 = emitted w w1"
    by (simp add: emitted_def)
  have c: "clock (w\<lparr>replies := stl (replies w)\<rparr>) = clock w"
    and r: "rng (w\<lparr>replies := stl (replies w)\<rparr>) = rng w"
    by simp_all
  show "\<exists>a tx. out =
           [(''success'', JBool True),
            (''deployer'', JStr (address wl)),
            (''contractAddress'', JStr a),
            (''txHash'', tx),
            (''explorer'', JStr (EXPLORER_URL @ ''/address/'' @ a)),
            (''timestamp'', JStr (shd (clock w))),
            (''walletIndex'', JNum wi),
            (''deployNumber'', JNum dn)] \<and>
         getAddress_r (shd (replies w)) = Inr a \<and>
         (if 3 / 10 < shd (stl (rng w))
          then \<exists>h m g. tx = JStr h \<and> setMessage_r (shd (replies w)) = Inr h \<and>
                 ChainCall (SetMessage m g) \<in> set (emitted w w1)
          else tx = JNull)"
    using deployContract_try_Inr [OF assms] unfolding e c r .
qed

text \<open>What a caller sees of an attempt.\<close>

lemma deployContract_result:
  "\<exists>out b. fst (deployContract wl abi bc dn wi w) = Inr out \<and>
     map_of out ''success'' = Some (JBool b) \<and>
     map_of out ''walletIndex'' = Some (JNum wi) \<and>
     map_of out ''deployNumber'' = Some (JNum dn)"
proof (cases "deployContract_try (shd (replies w)) wl abi bc dn wi (w\<lparr>replies := stl (replies w)\<rparr>)")
  case (Pair res w1)
  show ?thesis
  proof (cases res)
    case (Inl e)
    with Pair show ?thesis
      by (auto simp: deployContract_Inl)
  next
    case (Inr out)
    with Pair deployContract_Inr [of w wl abi bc dn wi out w1]
    show ?thesis
      by auto
  qed
qed




text \<open>
  C2. When the balance query answers zero, the attempt ends in a failed outcome without a
  \<open>contractAddress\<close>, its error is the zero-balance message, and the only call made to the
  chain client is the balance query: the deploy entry point is not invoked.
\<close>

theorem zero_balance_short_circuits:
  assumes "getBalance_r (shd (replies w)) = Inr 0"
  shows "\<exists>out w'. deployContract wl abi bc dn wi w = (Inr out, w') \<and>
     map_of out ''success'' = Some (JBool False) \<and>
     map_of out ''contractAddress'' = None \<and>
     map_of out ''error'' = Some (JStr ''Balance 0! Skip wallet ini'') \<and>
     emitted w w' = [ChainCall (GetBalance (address wl))] \<and>
     (\<forall>a b g. ChainCall (Deploy a b g) \<notin> set (emitted w w'))"
  using assms
  by (simp add: deployContract_Inl [OF deployContract_try_zero_balance] emit_def emitted_def)

theorem zero_balance_short_circuits_witness:
  "getBalance_r (shd (replies (example_world (1 / 2) (funded\<lparr>getBalance_r := Inr 0\<rparr>)))) = Inr 0 \<and>
   (\<exists>out w'. deployContract alice JNull ''0x60'' 1 1
        (example_world (1 / 2) (funded\<lparr>getBalance_r := Inr 0\<rparr>)) = (Inr out, w') \<and>
      map_of out ''success'' = Some (JBool False) \<and>
      map_of out ''contractAddress'' = None \<and>
      map_of out ''error'' = Some (JStr ''Balance 0! Skip wallet ini'') \<and>
      emitted (example_world (1 / 2) (funded\<lparr>getBalance_r := Inr 0\<rparr>)) w' =
        [ChainCall (GetBalance (address alice))])"
proof -
  have h: "getBalance_r (shd (replies (example_world (1 / 2) (funded\<lparr>getBalance_r := Inr 0\<rparr>)))) = Inr 0"
    by (simp add: example_world_def)
  from zero_balance_short_circuits [OF h, of alice JNull "''0x60''" 1 1] h
  show ?thesis
    by blast
qed

text \<open>
  C9. In an attempt the second draw decides the follow-up (\<open>Math.random() > 0.3\<close>). A
  successful attempt whose follow-up branch is not taken returns an outcome whose \<open>txHash\<close>
  key is present with the value \<open>null\<close>, with \<open>contractAddress\<close> set. An outcome holds a
  hash string only when the branch was taken and \<open>setMessage\<close> was sent and answered with
  that hash.
\<close>

theorem txHash_null_without_follow_up:
  assumes "deployContract wl abi bc dn wi w = (Inr out, w')"
  shows "(map_of out ''success'' = Some (JBool True) \<and> \<not> 3 / 10 < shd (stl (rng w)) \<longrightarrow>
            map_of out ''txHash'' = Some JNull \<and>
            (\<exists>a. map_of out ''contractAddress'' = Some (JStr a))) \<and>
         (\<forall>h. map_of out ''txHash'' = Some (JStr h) \<longrightarrow>
            3 / 10 < shd (stl (rng w)) \<and>
            setMessage_r (shd (replies w)) = Inr h \<and>
            (\<exists>m g. ChainCall (SetMessage m g) \<in> set (emitted w w')))"
proof (cases "deployContract_try (shd (replies w)) wl abi bc dn wi (w\<lparr>replies := stl (replies w)\<rparr>)")
  case (Pair res w1)
  show ?thesis
  proof (cases res)
    case (Inl e)
    with Pair assms show ?thesis
      by (auto simp: deployContract_Inl)
  next
    case (Inr r)
    with Pair have t: "deployContract_try (shd (replies w)) wl abi bc dn wi
        (w\<lparr>replies := stl (replies w)\<rparr>) = (Inr r, w1)"
      by simp
    from deployContract_Inr(1) [OF t] assms have eq: "out = r" "w' = w1"
      by simp_all
    from deployContract_Inr(2) [OF t] obtain a tx where r: "r =
           [(''success'', JBool True),
            (''deployer'', JStr (address wl)),
            (''contractAddress'', JStr a),
            (''txHash'', tx),
            (''explorer'', JStr (EXPLORER_URL @ ''/address/'' @ a)),
            (''timestamp'', JStr (shd (clock w))),
            (''walletIndex'', JNum wi),
            (''deployNumber'', JNum dn)]"
      and tx: "if 3 / 10 < shd (stl (rng w))
          then \<exists>h m g. tx = JStr h \<and> setMessage_r (shd (replies w)) = Inr h \<and>
                 ChainCall (SetMessage m g) \<in> set (emitted w w1)
          else tx = JNull"
      by blast
    show ?thesis
    proof (cases "3 / 10 < shd (stl (rng w))")
      case True
      with tx obtain h m g where "tx = JStr h" "setMessage_r (shd (replies w)) = Inr h"
        "ChainCall (SetMessage m g) \<in> set (emitted w w1)"
        by auto
      with True eq r show ?thesis
        by auto
    next
      case False
      with tx have "tx = JNull" by simp
      with False eq r show ?thesis
        by simp
    qed
  qed
qed


theorem txHash_null_without_follow_up_witness:
  "\<exists>out w'. deployContract alice JNull ''0x60'' 1 1 (example_world 0 funded) = (Inr out, w') \<and>
     map_of out ''success'' = Some (JBool True) \<and>
     \<not> 3 / 10 < shd (stl (rng (example_world 0 funded))) \<and>
     map_of out ''txHash'' = Some JNull \<and>
     map_of out ''contractAddress'' = Some (JStr ''0xC0FFEE'')"
proof -
  obtain out w' where h: "deployContract alice JNull ''0x60'' 1 1 (example_world 0 funded) = (Inr out, w')"
    and o: "map_of out ''success'' = Some (JBool True)"
      "map_of out ''contractAddress'' = Some (JStr ''0xC0FFEE'')"
    by (simp add: run_simps)
  have d: "\<not> 3 / 10 < shd (stl (rng (example_world 0 funded)))"
    by (simp add: example_world_def)
  from txHash_null_without_follow_up [OF h] o d have "map_of out ''txHash'' = Some JNull"
    by blast
  with h o d show ?thesis
    by blast
qed

subsection \<open>The shuffle\<close>

text \<open>The loop writes only the array it is given, and keeps the number of arrays.\<close>

lemma shuffle_loop_frame:
  assumes "shuffle_loop k r h w = (h', w')"
  shows "length h' = length h" and "a \<noteq> r \<Longrightarrow> h' ! a = h ! a"
  using assms
proof (induction k arbitrary: h w)
  case 0
  { case 1 then show ?case by simp
  next
    case 2 then show ?case by simp }
next
  case (Suc k)
  { case 1
    with Suc.IH(1) show ?case
      by (auto simp: Let_def Math_random_def split: prod.splits)
  next
    case 2
    with Suc.IH(2) show ?case
      by (auto simp: Let_def Math_random_def split: prod.splits) }
qed

lemma steps_shuffle_loop: "steps w w1 \<Longrightarrow> steps w (snd (shuffle_loop k r h w1))"
proof (induction k arbitrary: h w1)
  case 0
  then show ?case by simp
next
  case (Suc k)
  from Suc.prems have "steps w (snd (Math_random w1))"
    by (rule steps_Math_random)
  from Suc.IH [OF this] show ?case
    by (simp add: Let_def case_prod_beta)
qed

text \<open>With draws in \<open>[0, 1)\<close> every swap is between two positions of the array.\<close>

lemma shuffle_loop_mset:
  assumes "shuffle_loop k r h w = (h', w')"
    and "unit_draws (rng w)" and "r < length h" and "k < length (h ! r)"
  shows "mset (h' ! r) = mset (h ! r)"
  using assms
proof (induction k arbitrary: h w)
  case 0
  then show ?case by simp
next
  case (Suc k)
  define u where "u = shd (rng w)"
  define j where "j = nat \<lfloor>u * real (Suc k + 1)\<rfloor>"
  define a where "a = h ! r"
  define h1 where "h1 = h[r := a[Suc k := a ! j, j := a ! Suc k]]"
  define w1 where "w1 = w\<lparr>rng := stl (rng w)\<rparr>"
  from Suc.prems(2) have u: "0 \<le> u" "u < 1"
    using unit_draws_shd [of "rng w"] by (simp_all add: u_def)
  from floor_scaled_draw [OF u, of "int (Suc k + 1)"] have "j < Suc k + 1"
    by (simp add: j_def nat_less_iff)
  with Suc.prems(4) have j: "j < length a" and i: "Suc k < length a"
    by (simp_all add: a_def)
  have step: "shuffle_loop (Suc k) r h w = shuffle_loop k r h1 w1"
    by (simp add: Let_def Math_random_def h1_def a_def j_def u_def w1_def)
  from Suc.prems(2) have d: "unit_draws (rng w1)"
    by (auto simp: w1_def unit_draws_def dest: stl_sset)
  from Suc.prems(3) i have r: "r < length h1" and k: "k < length (h1 ! r)"
    by (simp_all add: h1_def)
  from Suc.prems(1) step have "shuffle_loop k r h1 w1 = (h', w')"
    by simp
  from Suc.IH [OF this d r k] have "mset (h' ! r) = mset (h1 ! r)" .
  also from Suc.prems(3) have "h1 ! r = a[Suc k := a ! j, j := a ! Suc k]"
    by (simp add: h1_def)
  also from mset_swap [OF j i] have "mset (a[Suc k := a ! j, j := a ! Suc k]) = mset a" .
  finally show ?case
    by (simp add: a_def)
qed

lemma shuffleArray_unfold:
  "shuffleArray array h w =
     ((length h, fst (shuffle_loop (length (h ! array) - 1) (length h) (h @ [h ! array]) w)),
      snd (shuffle_loop (length (h ! array) - 1) (length h) (h @ [h ! array]) w))"
  by (simp add: shuffleArray_def Let_def case_prod_beta)

lemma steps_shuffleArray: "steps w w1 \<Longrightarrow> steps w (snd (shuffleArray array h w1))"
  by (simp add: shuffleArray_unfold steps_shuffle_loop)

text \<open>
  C5. For draws in \<open>[0, 1)\<close> the array that \<open>shuffleArray\<close> returns has the length of its
  input and holds every element as often as the input does: it is a permutation of the
  input.
\<close>

theorem shuffleArray_permutation:
  assumes "unit_draws (rng w)" and "array < length h"
    and "shuffleArray array h w = ((shuffled, h'), w')"
  shows "mset (h' ! shuffled) = mset (h ! array) \<and> length (h' ! shuffled) = length (h ! array)"
proof -
  obtain h1 w1 where l: "shuffle_loop (length (h ! array) - 1) (length h) (h @ [h ! array]) w = (h1, w1)"
    by (cases "shuffle_loop (length (h ! array) - 1) (length h) (h @ [h ! array]) w")
  with assms(3) have eq: "shuffled = length h" "h' = h1"
    by (auto simp: shuffleArray_unfold)
  have m: "mset (h1 ! length h) = mset (h ! array)"
  proof (cases "h ! array")
    case Nil
    with l show ?thesis by auto
  next
    case (Cons x xs)
    then have "length (h ! array) - 1 < length ((h @ [h ! array]) ! length h)"
      by simp
    from shuffle_loop_mset [OF l assms(1) _ this] show ?thesis
      by simp
  qed
  from mset_eq_length [OF m] m eq show ?thesis
    by simp
qed

lemma example_world_unit_draws: "0 \<le> u \<Longrightarrow> u < 1 \<Longrightarrow> unit_draws (rng (example_world u r))"
  by (simp add: unit_draws_def example_world_def)

lemma shuffleArray_example:
  "shuffleArray 0 [[1, 2, 3 :: nat]] (example_world (1 / 2) funded) =
     ((1, [[1, 2, 3], [1, 3, 2]]), example_world (1 / 2) funded)"
  by (simp add: shuffleArray_def Let_def Math_random_def example_world_def eval_nat_numeral)

theorem shuffleArray_permutation_witness:
  "unit_draws (rng (example_world (1 / 2) funded)) \<and> (0 :: nat) < length [[1, 2, 3 :: nat]] \<and>
   shuffleArray 0 [[1, 2, 3 :: nat]] (example_world (1 / 2) funded) =
     ((1, [[1, 2, 3], [1, 3, 2]]), example_world (1 / 2) funded) \<and>
   mset ([[1, 2, 3], [1, 3, 2 :: nat]] ! 1) = mset ([[1, 2, 3]] ! 0)"
proof -
  have d: "unit_draws (rng (example_world (1 / 2) funded))"
    by (simp add: example_world_unit_draws)
  have n: "(0 :: nat) < length [[1, 2, 3 :: nat]]"
    by simp
  from shuffleArray_permutation [OF d n shuffleArray_example] d n shuffleArray_example
  show ?thesis
    by blast
qed

text \<open>
  C6. \<open>shuffleArray\<close> leaves its input as it was: the array it returns is a new one, and
  after the call the input array, like every other array that existed before, holds the
  same elements in the same order.
\<close>

theorem shuffleArray_keeps_input:
  assumes "array < length h" and "shuffleArray array h w = ((shuffled, h'), w')"
  shows "h' ! array = h ! array \<and> shuffled \<noteq> array \<and> take (length h) h' = h"
proof -
  obtain h1 w1 where l: "shuffle_loop (length (h ! array) - 1) (length h) (h @ [h ! array]) w = (h1, w1)"
    by (cases "shuffle_loop (length (h ! array) - 1) (length h) (h @ [h ! array]) w")
  with assms(2) have eq: "shuffled = length h" "h' = h1"
    by (auto simp: shuffleArray_unfold)
  from shuffle_loop_frame [OF l] have len: "length h1 = Suc (length h)"
    and old: "\<And>a. a < length h \<Longrightarrow> h1 ! a = h ! a"
    by (simp_all add: nth_append)
  from len old have "take (length h) h1 = h"
    by (intro nth_equalityI) simp_all
  with assms(1) old [of array] eq show ?thesis
    by simp
qed

theorem shuffleArray_keeps_input_witness:
  "(0 :: nat) < length [[1, 2, 3 :: nat]] \<and>
   shuffleArray 0 [[1, 2, 3 :: nat]] (example_world (1 / 2) funded) =
     ((1, [[1, 2, 3], [1, 3, 2]]), example_world (1 / 2) funded) \<and>
   [[1, 2, 3], [1, 3, 2 :: nat]] ! 0 = [[1, 2, 3]] ! 0 \<and> (1 :: nat) \<noteq> 0"
proof -
  have n: "(0 :: nat) < length [[1, 2, 3 :: nat]]"
    by simp
  from shuffleArray_keeps_input [OF n shuffleArray_example] n shuffleArray_example
  show ?thesis
    by blast
qed

subsection \<open>The loops\<close>

lemma steps_totalWait: "steps w w1 \<Longrightarrow> steps w (snd (totalWait h w1))"
  unfolding totalWait_def Let_def by (intro steps_intros)

lemma flagged_iff: "flagged r \<longleftrightarrow> (\<exists>b. map_of r ''success'' = Some (JBool b))"
  by (auto simp: flagged_def split: option.splits jsval.splits)

lemma deployNumbers_append [simp]: "deployNumbers (xs @ ys) = deployNumbers xs @ deployNumbers ys"
  by (simp add: deployNumbers_def)

text \<open>The loop of \<open>processWallet\<close> never rejects; it appends one outcome per attempt index
  from \<open>i\<close> to \<open>deployCount - 1\<close>, numbered \<open>walletIndex * 100 + index + 1\<close>.\<close>

lemma processWallet_loop_result:
  "\<exists>rs' w'. processWallet_loop wl abi bc k hrs c i rs w = (Inr (rs @ rs'), w') \<and>
     steps w w' \<and>
     deployNumbers rs' = map (\<lambda>j. Some (JNum (k * 100 + j + 1))) [i..c - 1] \<and>
     list_all flagged rs'"
proof (induction wl abi bc k hrs c i rs w rule: processWallet_loop.induct)
  case (1 wl abi bc k hrs c i rs w)
  show ?case
  proof (cases "i < c")
    case False
    then show ?thesis
      by (subst processWallet_loop.simps) (simp add: steps_refl deployNumbers_def)
  next
    case True
    obtain res w1 where dc: "deployContract wl abi bc (k * 100 + i + 1) (k + 1) w = (res, w1)"
      by (cases "deployContract wl abi bc (k * 100 + i + 1) (k + 1) w")
    with deployContract_result [of wl abi bc "k * 100 + i + 1" "k + 1" w]
    obtain out where res: "res = Inr out" and f: "flagged out"
      and n: "map_of out ''deployNumber'' = Some (JNum (k * 100 + i + 1))"
      by (auto simp: flagged_iff)
    define w2 where "w2 = (if i < c - 1
        then let (x, y) = totalWait hrs w1 in countdown x y else w1)"
    from steps_deployContract [OF steps_refl, of w wl abi bc "k * 100 + i + 1" "k + 1"] dc
    have s1: "steps w w1"
      by simp
    have s2: "steps w1 w2"
      by (simp add: w2_def case_prod_beta steps_refl steps_countdown steps_totalWait)
    from "1.IH" [OF True dc [symmetric] res]
    obtain rs' w' where
      l: "processWallet_loop wl abi bc k hrs c (i + 1) (rs @ [out]) w2 = (Inr ((rs @ [out]) @ rs'), w')"
      and s3: "steps w2 w'"
      and d: "deployNumbers rs' = map (\<lambda>j. Some (JNum (k * 100 + j + 1))) [i + 1..c - 1]"
      and fl: "list_all flagged rs'"
      unfolding w2_def by blast
    from True have u: "[i..c - 1] = i # [i + 1..c - 1]"
      by (simp add: upto_rec1)
    have "processWallet_loop wl abi bc k hrs c i rs w = (Inr (rs @ out # rs'), w')"
      using True dc res l by (subst processWallet_loop.simps) (simp add: w2_def)
    moreover have "steps w w'"
      using s1 s2 s3 by (blast intro: steps_trans)
    moreover have "deployNumbers (out # rs') = map (\<lambda>j. Some (JNum (k * 100 + j + 1))) [i..c - 1]"
      using d n unfolding u by (simp add: deployNumbers_def)
    moreover have "list_all flagged (out # rs')"
      using f fl by simp
    ultimately show ?thesis
      by blast
  qed
qed

lemma processWallet_result:
  "\<exists>rs w'. processWallet wl abi bc k n w = (Inr rs, w') \<and> steps w w' \<and>
     deployNumbers rs = map (\<lambda>j. Some (JNum (k * 100 + j + 1)))
       [0..fst (getRandomInt MIN_DEPLOY_COUNT MAX_DEPLOY_COUNT w) - 1] \<and>
     list_all flagged rs"
proof -
  define c where "c = fst (getRandomInt MIN_DEPLOY_COUNT MAX_DEPLOY_COUNT w)"
  define w1 where "w1 = snd (getRandomInt MIN_DEPLOY_COUNT MAX_DEPLOY_COUNT w)"
  define hrs where "hrs = fst (getRandomElement INTERVAL_OPTIONS w1)"
  define w2 where "w2 = snd (getRandomElement INTERVAL_OPTIONS w1)"
  have p: "processWallet wl abi bc k n w = processWallet_loop wl abi bc k hrs c 0 [] w2"
    by (simp add: processWallet_def Let_def case_prod_beta c_def w1_def hrs_def w2_def)
  have s: "steps w w2"
    unfolding w2_def w1_def by (intro steps_intros)
  from processWallet_loop_result [of wl abi bc k hrs c 0 "[]" w2] s
  show ?thesis
    unfolding p c_def [symmetric] by (auto intro: steps_trans)
qed


lemma strictly_sorted_numbers: "sorted_wrt (<) (map (\<lambda>j. b + j + 1) [i..j :: int])"
proof -
  have "sorted_wrt (<) [i..j]"
    by (simp add: strict_sorted_iff)
  then have "sorted_wrt (\<lambda>x y. b + x + 1 < b + y + 1) [i..j]"
    by (rule sorted_wrt_mono_rel [rotated]) simp
  then show ?thesis
    by (simp add: sorted_wrt_map)
qed

lemma numbered_Nil: "numbered i n []"
  by (simp add: numbered_def deployNumbers_def)

lemma numbered_wallet:
  assumes "deployNumbers rs = map (\<lambda>j. Some (JNum (int i * 100 + j + 1))) [0..c - 1]"
    and "c \<le> 4" and "i < n"
  shows "numbered i n rs"
  unfolding numbered_def
proof (intro exI [of _ "map (\<lambda>j. int i * 100 + j + 1) [0..c - 1]"] conjI ballI)
  show "deployNumbers rs = map (\<lambda>d. Some (JNum d)) (map (\<lambda>j. int i * 100 + j + 1) [0..c - 1])"
    using assms(1) by simp
  show "sorted_wrt (<) (map (\<lambda>j. int i * 100 + j + 1) [0..c - 1])"
    by (rule strictly_sorted_numbers)
next
  fix d
  assume "d \<in> set (map (\<lambda>j. int i * 100 + j + 1) [0..c - 1])"
  then obtain a where "0 \<le> a" "a \<le> c - 1" "d = int i * 100 + a + 1"
    by auto
  with assms(2,3) show "\<exists>k a. i \<le> k \<and> k < n \<and> 0 \<le> a \<and> a < 4 \<and> d = int k * 100 + a + 1"
    by (intro exI [of _ i] exI [of _ a]) simp
qed

lemma numbered_append:
  assumes "numbered i n xs" and "numbered (Suc i) n ys"
    and "deployNumbers xs = map (\<lambda>j. Some (JNum (int i * 100 + j + 1))) [0..c - 1]" and "c \<le> 4"
  shows "numbered i n (xs @ ys)"
proof -
  from assms(2) obtain ds2 where 2: "deployNumbers ys = map (\<lambda>d. Some (JNum d)) ds2"
    "sorted_wrt (<) ds2"
    "\<forall>d \<in> set ds2. \<exists>k a. Suc i \<le> k \<and> k < n \<and> 0 \<le> a \<and> a < 4 \<and> d = int k * 100 + a + 1"
    unfolding numbered_def by blast
  define ds1 where "ds1 = map (\<lambda>j. int i * 100 + j + 1) [0..c - 1]"
  have 1: "deployNumbers xs = map (\<lambda>d. Some (JNum d)) ds1"
    using assms(3) by (simp add: ds1_def)
  have s1: "sorted_wrt (<) ds1"
    unfolding ds1_def by (rule strictly_sorted_numbers)
  have b1: "\<forall>d \<in> set ds1. int i * 100 < d \<and> d \<le> int i * 100 + 4"
    using assms(4) by (auto simp: ds1_def)
  have m1: "\<forall>d \<in> set ds1. \<exists>k a. i \<le> k \<and> k < n \<and> 0 \<le> a \<and> a < 4 \<and> d = int k * 100 + a + 1"
  proof
    fix d assume "d \<in> set ds1"
    with 1 have "Some (JNum d) \<in> set (deployNumbers xs)"
      by simp
    with assms(1) show "\<exists>k a. i \<le> k \<and> k < n \<and> 0 \<le> a \<and> a < 4 \<and> d = int k * 100 + a + 1"
      unfolding numbered_def by auto
  qed
  have lt: "\<forall>x \<in> set ds1. \<forall>y \<in> set ds2. x < y"
  proof (intro ballI)
    fix x y assume x: "x \<in> set ds1" and y: "y \<in> set ds2"
    from 2(3) y obtain k a where "Suc i \<le> k" "0 \<le> a" "y = int k * 100 + a + 1"
      by blast
    moreover from b1 x have "x \<le> int i * 100 + 4"
      by simp
    ultimately show "x < y"
      by simp
  qed
  show ?thesis
    unfolding numbered_def
  proof (intro exI [of _ "ds1 @ ds2"] conjI ballI)
    show "deployNumbers (xs @ ys) = map (\<lambda>d. Some (JNum d)) (ds1 @ ds2)"
      using 1 2(1) by simp
    show "sorted_wrt (<) (ds1 @ ds2)"
      using s1 2(2) lt by (simp add: sorted_wrt_append)
  next
    fix d assume "d \<in> set (ds1 @ ds2)"
    then consider "d \<in> set ds1" | "d \<in> set ds2"
      by auto
    then show "\<exists>k a. i \<le> k \<and> k < n \<and> 0 \<le> a \<and> a < 4 \<and> d = int k * 100 + a + 1"
    proof cases
      case 1
      with m1 show ?thesis by blast
    next
      case 2
      with \<open>\<forall>d \<in> set ds2. \<exists>k a. Suc i \<le> k \<and> k < n \<and> 0 \<le> a \<and> a < 4 \<and> d = int k * 100 + a + 1\<close>
      obtain k a where "Suc i \<le> k" "k < n" "0 \<le> a" "a < 4" "d = int k * 100 + a + 1"
        by blast
      then show ?thesis
        by (intro exI [of _ k] exI [of _ a]) simp
    qed
  qed
qed


lemma deployCount_bounds:
  assumes "unit_draws (rng w)"
  shows "2 \<le> fst (getRandomInt MIN_DEPLOY_COUNT MAX_DEPLOY_COUNT w)"
    and "fst (getRandomInt MIN_DEPLOY_COUNT MAX_DEPLOY_COUNT w) \<le> 4"
  using getRandomInt_bounds [of w MIN_DEPLOY_COUNT MAX_DEPLOY_COUNT] unit_draws_shd [OF assms]
  by (simp_all add: MIN_DEPLOY_COUNT_def MAX_DEPLOY_COUNT_def)

text \<open>The loop over the wallets never rejects. It appends the outcomes of the wallets from
  position \<open>i\<close> on, and with draws in \<open>[0, 1)\<close> their numbers are strictly increasing.\<close>

lemma wallets_loop_result:
  "\<exists>rs' w'. wallets_loop ws abi bc i acc w = (Inr (acc @ rs'), w') \<and> steps w w' \<and>
     list_all flagged rs' \<and> (unit_draws (rng w) \<longrightarrow> numbered i (length ws) rs')"
proof (induction ws abi bc i acc w rule: wallets_loop.induct)
  case (1 ws abi bc i acc w)
  show ?case
  proof (cases "i < length ws")
    case False
    then show ?thesis
      by (subst wallets_loop.simps) (simp add: steps_refl numbered_Nil)
  next
    case True
    define c where "c = fst (getRandomInt MIN_DEPLOY_COUNT MAX_DEPLOY_COUNT w)"
    from processWallet_result [of "ws ! i" abi bc "int i" "int (length ws)" w]
    obtain rs1 w1 where pw: "processWallet (ws ! i) abi bc (int i) (int (length ws)) w = (Inr rs1, w1)"
      and s1: "steps w w1"
      and d1: "deployNumbers rs1 = map (\<lambda>j. Some (JNum (int i * 100 + j + 1))) [0..c - 1]"
      and f1: "list_all flagged rs1"
      unfolding c_def by blast
    define w2 where "w2 = (if int i < int (length ws) - 1
        then let (x, y) = getRandomInt MIN_DELAY_BETWEEN_WALLETS MAX_DELAY_BETWEEN_WALLETS w1
             in countdown x y
        else w1)"
    have s2: "steps w1 w2"
      by (simp add: w2_def case_prod_beta steps_refl steps_countdown steps_getRandomInt)
    from "1.IH" [OF True pw [symmetric] refl]
    obtain rs2 w' where
      l: "wallets_loop ws abi bc (i + 1) (acc @ rs1) w2 = (Inr ((acc @ rs1) @ rs2), w')"
      and s3: "steps w2 w'"
      and f2: "list_all flagged rs2"
      and n2: "unit_draws (rng w2) \<longrightarrow> numbered (i + 1) (length ws) rs2"
      unfolding w2_def by blast
    have "wallets_loop ws abi bc i acc w = (Inr (acc @ rs1 @ rs2), w')"
      using True pw l by (subst wallets_loop.simps) (simp add: w2_def)
    moreover have "steps w w'"
      using s1 s2 s3 by (blast intro: steps_trans)
    moreover have "list_all flagged (rs1 @ rs2)"
      using f1 f2 by simp
    moreover have "numbered i (length ws) (rs1 @ rs2)" if u: "unit_draws (rng w)"
    proof -
      from u s1 s2 have "unit_draws (rng w2)"
        by (blast intro: steps_unit_draws)
      with n2 have 2: "numbered (Suc i) (length ws) rs2"
        by simp
      from deployCount_bounds(2) [OF u] have c: "c \<le> 4"
        by (simp add: c_def)
      from numbered_wallet [OF d1 c True] numbered_append [OF _ 2 d1 c]
      show ?thesis
        by blast
    qed
    ultimately show ?thesis
      by blast
  qed
qed

text \<open>
  C3. The loop over the wallets of a run returns the outcomes of all attempts, and with
  draws in \<open>[0, 1)\<close> no two of them have the same \<open>deployNumber\<close>: every number is
  \<open>k * 100 + a + 1\<close> for a wallet position \<open>k\<close> and an attempt index \<open>a\<close> below 4.
\<close>

theorem deployNumber_unique:
  assumes "unit_draws (rng w)"
  shows "\<exists>allResults w'. wallets_loop shuffledWallets abi bytecode 0 [] w = (Inr allResults, w') \<and>
     distinct (deployNumbers allResults) \<and>
     (\<forall>n \<in> set (deployNumbers allResults). \<exists>k a. k < length shuffledWallets \<and> 0 \<le> a \<and> a < 4 \<and>
        n = Some (JNum (int k * 100 + a + 1)))"
proof -
  from wallets_loop_result [of shuffledWallets abi bytecode 0 "[]" w] assms
  obtain rs w' where l: "wallets_loop shuffledWallets abi bytecode 0 [] w = (Inr rs, w')"
    and n: "numbered 0 (length shuffledWallets) rs"
    by auto
  from n obtain ds where ds: "deployNumbers rs = map (\<lambda>d. Some (JNum d)) ds"
    and s: "sorted_wrt (<) ds"
    and m: "\<forall>d \<in> set ds. \<exists>k a. 0 \<le> k \<and> k < length shuffledWallets \<and> 0 \<le> a \<and> a < 4 \<and>
        d = int k * 100 + a + 1"
    unfolding numbered_def by blast
  from s have "distinct ds"
    by (simp add: strict_sorted_iff)
  then have "distinct (deployNumbers rs)"
    unfolding ds by (simp add: distinct_map inj_on_def)
  moreover from m have "\<forall>n \<in> set (deployNumbers rs). \<exists>k a. k < length shuffledWallets \<and>
      0 \<le> a \<and> a < 4 \<and> n = Some (JNum (int k * 100 + a + 1))"
    unfolding ds by auto
  ultimately show ?thesis
    using l by blast
qed


lemmas loop_simps = wallets_loop.simps processWallet_def processWallet_loop.simps totalWait_def
  INTERVAL_OPTIONS_def MIN_DEPLOY_COUNT_def MAX_DEPLOY_COUNT_def MIN_DELAY_BETWEEN_WALLETS_def
  MAX_DELAY_BETWEEN_WALLETS_def

lemma wallets_loop_example:
  "deployNumbers (projr (fst (wallets_loop [alice] JNull ''0x60'' 0 [] (example_world 0 funded)))) =
     [Some (JNum 1), Some (JNum 2)]"
  by (simp add: loop_simps run_simps deployNumbers_def)

theorem deployNumber_unique_witness:
  "unit_draws (rng (example_world 0 funded)) \<and>
   (\<exists>allResults w'.
      wallets_loop [alice] JNull ''0x60'' 0 [] (example_world 0 funded) = (Inr allResults, w') \<and>
      deployNumbers allResults = [Some (JNum 1), Some (JNum 2)] \<and>
      distinct (deployNumbers allResults))"
proof -
  have d: "unit_draws (rng (example_world 0 funded))"
    by (simp add: example_world_unit_draws)
  from deployNumber_unique [OF d, of "[alice]" JNull "''0x60''"]
  obtain allResults w' where
    l: "wallets_loop [alice] JNull ''0x60'' 0 [] (example_world 0 funded) = (Inr allResults, w')"
    and u: "distinct (deployNumbers allResults)"
    by blast
  from l wallets_loop_example have "deployNumbers allResults = [Some (JNum 1), Some (JNum 2)]"
    by simp
  with d l u show ?thesis
    by blast
qed

subsection \<open>The run\<close>

lemma steps_emitted:
  assumes "steps w w'"
  shows "\<exists>evs. trace w' = trace w @ evs \<and> list_all quiet evs \<and> emitted w w' = evs"
  using assms by (auto simp: steps_def emitted_def)

lemma andThen_Inl: "andThen (Inl e, w) f = (Inl e, w)"
  and andThen_Inr: "andThen (Inr x, w) f = f x w"
  by (simp_all add: andThen_def)

text \<open>How \<open>main_try\<close> ends: either it raises, having written no file, or it returns
  after writing the summary of the outcomes as its last event.\<close>

lemma main_try_ends:
  "(\<exists>e w'. main_try host w = (Inl e, w') \<and> steps w w') \<or>
   (\<exists>rs st et w1. main_try host w =
        (Inr (), emit (WriteFile ''deployments.json'' (summary_of rs st et)) w1) \<and>
      steps w w1 \<and> list_all flagged rs)"
proof (cases "compileContract (solc_compile host)")
  case (Inl e)
  then have "main_try host w = (Inl e, w)"
    by (simp add: main_try_def andThen_def)
  then show ?thesis
    by (simp add: steps_refl)
next
  case (Inr artifact)
  obtain abi bc where artifact: "artifact = (abi, bc)"
    by (cases artifact)
  show ?thesis
  proof (cases "getPrivateKeys (pk_txt host)")
    case (Inl e)
    with Inr artifact have "main_try host w = (Inl e, w)"
      by (simp add: main_try_def andThen_def)
    then show ?thesis
      by (simp add: steps_refl)
  next
    case keys: (Inr privateKeys)
    show ?thesis
    proof (cases "privateKeys = []")
      case True
      with Inr artifact keys
      have "main_try host w = (Inl (Error ''No private keys found in pk.txt''), w)"
        by (simp add: main_try_def andThen_def)
      then show ?thesis
        by (simp add: steps_refl)
    next
      case False
      show ?thesis
      proof (cases "map_Wallet (Wallet host) privateKeys")
        case (Inl e)
        with Inr artifact keys False have "main_try host w = (Inl e, w)"
          by (simp add: main_try_def andThen_def)
        then show ?thesis
          by (simp add: steps_refl)
      next
        case wallets: (Inr wallets)
        define sh where "sh = shuffleArray 0 [wallets] w"
        define sw where "sw = snd (fst sh) ! fst (fst sh)"
        define w2 where "w2 = snd sh"
        from wallets_loop_result [of sw abi bc 0 "[]" w2]
        obtain rs w3 where l: "wallets_loop sw abi bc 0 [] w2 = (Inr rs, w3)"
          and s3: "steps w2 w3" and f: "list_all flagged rs"
          by auto
        have "steps w w2"
          unfolding w2_def sh_def by (intro steps_shuffleArray steps_refl)
        with s3 have s: "steps w w3"
          by (blast intro: steps_trans)
        have run: "main_try host w =
            andThen (startTime_of rs, w3) (\<lambda>startTime w.
              let (endTime, w) = Date_now_toISOString w;
                  summary = summary_of rs startTime endTime
              in andThen (writeFileSync ''deployments.json'' summary (writeFileSync_r host) w)
                   (\<lambda>_ w. (Inr (), w)))"
          using Inr artifact keys False wallets l
          by (simp add: main_try_def andThen_Inl andThen_Inr case_prod_beta Let_def sh_def sw_def w2_def)
        show ?thesis
        proof (cases "startTime_of rs")
          case (Inl e)
          with run have "main_try host w = (Inl e, w3)"
            by (simp add: andThen_Inl)
          with s show ?thesis
            by simp
        next
          case st: (Inr st)
          define w4 where "w4 = snd (Date_now_toISOString w3)"
          define et where "et = fst (Date_now_toISOString w3)"
          have s4: "steps w w4"
            unfolding w4_def using s by (rule steps_Date)
          show ?thesis
          proof (cases "writeFileSync_r host")
            case (Inl e)
            with run st have "main_try host w = (Inl e, w4)"
              by (simp add: andThen_Inl andThen_Inr writeFileSync_def case_prod_beta w4_def)
            with s4 show ?thesis
              by simp
          next
            case wr: (Inr u)
            with run st have "main_try host w =
                (Inr (), emit (WriteFile ''deployments.json'' (summary_of rs st et)) w4)"
              by (simp add: andThen_Inl andThen_Inr writeFileSync_def case_prod_beta w4_def et_def)
            with s4 f show ?thesis
              by blast
          qed
        qed
      qed
    qed
  qed
qed


lemma main_ends:
  "(main host w = (1, snd (main host w)) \<and> steps w (snd (main host w))) \<or>
   (\<exists>rs st et w1. main host w =
        (0, emit (WriteFile ''deployments.json'' (summary_of rs st et)) w1) \<and>
      steps w w1 \<and> list_all flagged rs)"
  using main_try_ends [of host w] by (auto simp: main_def)

text \<open>A file write of a run is its last event, and it writes the summary.\<close>

lemma main_write:
  assumes "WriteFile path data \<in> set (emitted w (snd (main host w)))"
  shows "\<exists>rs st et evs. path = ''deployments.json'' \<and> data = summary_of rs st et \<and>
     list_all flagged rs \<and> fst (main host w) = 0 \<and> list_all quiet evs \<and>
     emitted w (snd (main host w)) = evs @ [WriteFile path data]"
  using main_ends [of host w]
proof (elim disjE conjE exE)
  assume "steps w (snd (main host w))"
  from steps_emitted [OF this] assms show ?thesis
    by (auto simp: list_all_iff quiet_def)
next
  fix rs st et w1
  assume m: "main host w = (0, emit (WriteFile ''deployments.json'' (summary_of rs st et)) w1)"
    and s: "steps w w1" and f: "list_all flagged rs"
  from steps_emitted [OF s] obtain evs where evs: "trace w1 = trace w @ evs" "list_all quiet evs"
    by blast
  with m have e: "emitted w (snd (main host w)) =
      evs @ [WriteFile ''deployments.json'' (summary_of rs st et)]"
    by (simp add: emitted_def emit_def)
  with assms evs(2) have "path = ''deployments.json''" "data = summary_of rs st et"
    by (auto simp: list_all_iff quiet_def)
  with m e f evs(2) show ?thesis
    by auto
qed

lemma flagged_filters:
  assumes "list_all flagged rs"
  shows "filter (\<lambda>r. truthy (map_of r ''success'')) rs =
           filter (\<lambda>r. map_of r ''success'' = Some (JBool True)) rs"
    and "filter (\<lambda>r. \<not> truthy (map_of r ''success'')) rs =
           filter (\<lambda>r. map_of r ''success'' = Some (JBool False)) rs"
  using assms by (auto simp: list_all_iff flagged_iff intro!: filter_cong)

text \<open>
  C7. Whenever a run writes a file, the file is the summary of the outcomes of the run: every
  outcome has a boolean \<open>success\<close> flag, \<open>successful\<close> counts the outcomes whose flag is true,
  \<open>failed\<close> those whose flag is false, \<open>deployments\<close> holds all of them, and
  \<open>successful + failed\<close> is the number of \<open>deployments\<close>, which is \<open>totalDeployments\<close>.
\<close>

theorem summary_counts_add_up:
  assumes "WriteFile path data \<in> set (emitted w (snd (main host w)))"
  shows "\<exists>summary rs successful failed.
     data = JObj summary \<and>
     map_of summary ''deployments'' = Some (JArr (map JObj rs)) \<and>
     map_of summary ''successful'' = Some (JNum (int successful)) \<and>
     map_of summary ''failed'' = Some (JNum (int failed)) \<and>
     map_of summary ''totalDeployments'' = Some (JNum (int (length rs))) \<and>
     list_all flagged rs \<and>
     successful = length (filter (\<lambda>r. map_of r ''success'' = Some (JBool True)) rs) \<and>
     failed = length (filter (\<lambda>r. map_of r ''success'' = Some (JBool False)) rs) \<and>
     successful + failed = length rs"
proof -
  from main_write [OF assms] obtain rs st et where d: "data = summary_of rs st et"
    and f: "list_all flagged rs"
    by blast
  have "length (filter (\<lambda>r. truthy (map_of r ''success'')) rs) +
      length (filter (\<lambda>r. \<not> truthy (map_of r ''success'')) rs) = length rs"
    by (rule sum_length_filter_compl)
  with f d show ?thesis
    unfolding summary_of_def Let_def flagged_filters [OF f] by (auto intro!: exI [of _ rs])
qed

lemmas main_simps = main_def main_try_def andThen_Inl andThen_Inr compileContract_def
  getPrivateKeys_def trim_def js_white_def keep_line_def shuffleArray_def startTime_of_def
  writeFileSync_def example_host_def good_solc_def failing_solc_def mixed_world_def

lemma main_example:
  "emitted mixed_world (snd (main (example_host good_solc ''0x01'') mixed_world)) =
     [ChainCall (GetBalance ''0xA11CE''),
      ChainCall (Deploy (JArr []) ''0x6080'' 2500000),
      ChainCall WaitForDeployment, ChainCall GetAddress, ChainCall Message, Slept 21000,
      ChainCall (GetBalance ''0xA11CE''),
      WriteFile ''deployments.json''
        (summary_of example_outcomes ''2026-01-01T00:00:00.000Z'' ''2026-01-01T00:00:00.000Z'')]"
  by (simp add: main_simps loop_simps run_simps emitted_def example_outcomes_def)

theorem summary_counts_add_up_witness:
  "WriteFile ''deployments.json''
      (summary_of example_outcomes ''2026-01-01T00:00:00.000Z'' ''2026-01-01T00:00:00.000Z'')
     \<in> set (emitted mixed_world (snd (main (example_host good_solc ''0x01'') mixed_world))) \<and>
   (\<exists>summary. summary_of example_outcomes ''2026-01-01T00:00:00.000Z''
        ''2026-01-01T00:00:00.000Z'' = JObj summary \<and>
      map_of summary ''successful'' = Some (JNum 1) \<and>
      map_of summary ''failed'' = Some (JNum 1) \<and>
      map_of summary ''totalDeployments'' = Some (JNum 2))"
proof -
  have h: "WriteFile ''deployments.json''
      (summary_of example_outcomes ''2026-01-01T00:00:00.000Z'' ''2026-01-01T00:00:00.000Z'')
     \<in> set (emitted mixed_world (snd (main (example_host good_solc ''0x01'') mixed_world)))"
    by (simp add: main_example)
  from summary_counts_add_up [OF h] obtain summary rs successful failed where
    s: "summary_of example_outcomes ''2026-01-01T00:00:00.000Z'' ''2026-01-01T00:00:00.000Z''
          = JObj summary"
    and d: "map_of summary ''deployments'' = Some (JArr (map JObj rs))"
    and c: "map_of summary ''successful'' = Some (JNum (int successful))"
      "map_of summary ''failed'' = Some (JNum (int failed))"
      "map_of summary ''totalDeployments'' = Some (JNum (int (length rs)))"
      "successful = length (filter (\<lambda>r. map_of r ''success'' = Some (JBool True)) rs)"
      "failed = length (filter (\<lambda>r. map_of r ''success'' = Some (JBool False)) rs)"
    by blast
  from s d have "map JObj rs = map JObj example_outcomes"
    by (auto simp: summary_of_def Let_def)
  then have "rs = example_outcomes"
    by (simp add: inj_map_eq_map inj_def)
  with c have "map_of summary ''successful'' = Some (JNum 1)"
    "map_of summary ''failed'' = Some (JNum 1)"
    "map_of summary ''totalDeployments'' = Some (JNum 2)"
    by (simp_all add: example_outcomes_def)
  with h s show ?thesis
    by blast
qed

lemma compileContract_error:
  assumes "errors out = Some es" and "e \<in> set es" and "severity e = ''error''"
  shows "compileContract out = Inl (Error ''Contract compilation failed'')"
proof -
  from assms(2,3) have "filter (\<lambda>e. severity e = ''error'') es \<noteq> []"
    by (auto simp: filter_empty_conv)
  with assms(1) show ?thesis
    by (simp add: compileContract_def)
qed

lemma getPrivateKeys_empty_file: "getPrivateKeys (Inr []) = Inr []"
  by (simp add: getPrivateKeys_def trim_def keep_line_def)

text \<open>
  C8. When compilation fails or no credential is loaded, the process exits with code 1 and
  the world is as it was before: no file is written, the chain client is not called and
  no random number is drawn. In any run a file write is the last event, after every
  call of the chain client, and the run that makes it exits with code 0.
\<close>

theorem startup_failure_aborts:
  assumes "(\<exists>e. compileContract (solc_compile host) = Inl e) \<or>
           getPrivateKeys (pk_txt host) = Inr []"
  shows "main host w = (1, w) \<and> emitted w (snd (main host w)) = [] \<and>
         (\<forall>host' path data. WriteFile path data \<in> set (emitted w (snd (main host' w))) \<longrightarrow>
            fst (main host' w) = 0 \<and>
            (\<exists>evs. emitted w (snd (main host' w)) = evs @ [WriteFile path data] \<and>
               list_all quiet evs))"
proof -
  have "main_try host w = (Inl (Error ''No private keys found in pk.txt''), w) \<or>
      (\<exists>e. main_try host w = (Inl e, w))"
  proof (cases "compileContract (solc_compile host)")
    case (Inl e)
    then show ?thesis
      by (simp add: main_try_def andThen_Inl)
  next
    case (Inr artifact)
    with assms have "getPrivateKeys (pk_txt host) = Inr []"
      by simp
    with Inr show ?thesis
      by (cases artifact) (simp add: main_try_def andThen_Inl andThen_Inr)
  qed
  then have "main host w = (1, w)"
    by (auto simp: main_def)
  moreover from this have "emitted w (snd (main host w)) = []"
    by (simp add: emitted_def)
  moreover have "fst (main host' w) = 0 \<and>
            (\<exists>evs. emitted w (snd (main host' w)) = evs @ [WriteFile path data] \<and>
               list_all quiet evs)"
    if "WriteFile path data \<in> set (emitted w (snd (main host' w)))" for host' path data
    using main_write [OF that] by blast
  ultimately show ?thesis
    by blast
qed

theorem startup_failure_aborts_witness:
  "(\<exists>e. compileContract (solc_compile (example_host failing_solc ''0x01'')) = Inl e) \<and>
   main (example_host failing_solc ''0x01'') mixed_world = (1, mixed_world) \<and>
   getPrivateKeys (pk_txt (example_host good_solc ''# no keys'')) = Inr [] \<and>
   main (example_host good_solc ''# no keys'') mixed_world = (1, mixed_world) \<and>
   WriteFile ''deployments.json''
      (summary_of example_outcomes ''2026-01-01T00:00:00.000Z'' ''2026-01-01T00:00:00.000Z'')
     \<in> set (emitted mixed_world (snd (main (example_host good_solc ''0x01'') mixed_world))) \<and>
   fst (main (example_host good_solc ''0x01'') mixed_world) = 0"
proof -
  have c: "\<exists>e. compileContract (solc_compile (example_host failing_solc ''0x01'')) = Inl e"
    by (simp add: example_host_def failing_solc_def compileContract_def)
  have k: "getPrivateKeys (pk_txt (example_host good_solc ''# no keys'')) = Inr []"
    by (simp add: example_host_def getPrivateKeys_def trim_def js_white_def keep_line_def)
  have h: "WriteFile ''deployments.json''
      (summary_of example_outcomes ''2026-01-01T00:00:00.000Z'' ''2026-01-01T00:00:00.000Z'')
     \<in> set (emitted mixed_world (snd (main (example_host good_solc ''0x01'') mixed_world)))"
    by (simp add: main_example)
  from c have "main (example_host failing_solc ''0x01'') mixed_world = (1, mixed_world)"
    using startup_failure_aborts [of "example_host failing_solc ''0x01''" mixed_world]
    by blast
  moreover from k
  have "main (example_host good_solc ''# no keys'') mixed_world = (1, mixed_world)"
    and "\<forall>host' path data.
      WriteFile path data \<in> set (emitted mixed_world (snd (main host' mixed_world))) \<longrightarrow>
      fst (main host' mixed_world) = 0"
    using startup_failure_aborts [of "example_host good_solc ''# no keys''" mixed_world]
    by blast+
  moreover from this(2) h have "fst (main (example_host good_solc ''0x01'') mixed_world) = 0"
    by blast
  ultimately show ?thesis
    using c k h by blast
qed

end
